theory Spec2Isabelle
  imports Complex_Main
begin

section \<open>Data model\<close>

text \<open>
  A JavaScript exception is a value: \<open>Error msg\<close> is \<^verbatim>\<open>throw new Error(msg)\<close>,
  \<open>TypeError p\<close> is the engine's TypeError for reading property \<open>p\<close> of \<^verbatim>\<open>undefined\<close>,
  and \<open>NumericFault f\<close> is the exception of the ethers library with code
  \<^verbatim>\<open>NUMERIC_FAULT\<close> and fault \<open>f\<close>. A function that can throw returns \<open>error + 'a\<close>, with
  \<open>Inl\<close> for the exception.
\<close>

datatype error = Error string | TypeError string | NumericFault string

subsection \<open>Donations (src/app/src/store/cart.ts)\<close>

text \<open>
  A \<^verbatim>\<open>Donation\<close> is the object \<^verbatim>\<open>{ grantId, token, ratio, rounds }\<close> built in
  \<^verbatim>\<open>getCartDonationInputs\<close>. The ratio is an ethers \<^verbatim>\<open>BigNumber\<close>, an integer of
  arbitrary size, so it is an \<open>int\<close>; the token is the checksummed address string that
  \<^verbatim>\<open>===\<close> compares.
\<close>

record Donation =
  grantId :: nat
  token :: string
  ratio :: int
  rounds :: "string list"

text \<open>
  \<^verbatim>\<open>WAD\<close> is imported from src/utils/constants, which is not among the sources; cart.ts
  documents its value where the ratio is computed: \<^verbatim>\<open>WAD = 1e18 = 100%\<close>.
\<close>

definition WAD :: int where
  "WAD = 10 ^ 18"

text \<open>
  \<^verbatim>\<open>donations.reduce((acc, curr) => acc.add(curr.token === token ? curr.ratio : 0), BigNumber.from(0))\<close>
\<close>

definition tokenSum :: "string \<Rightarrow> Donation list \<Rightarrow> int" where
  "tokenSum t donations =
     fold (\<lambda>curr acc. acc + (if token curr = t then ratio curr else 0)) donations 0"

text \<open>
  \<^verbatim>\<open>donations.forEach((donation, index) => ...)\<close> from position \<open>index\<close> on. The callback
  reads the array as the earlier iterations left it, throws when the token's sum exceeds
  \<open>WAD\<close>, and otherwise overwrites \<^verbatim>\<open>donations[index]\<close>.
\<close>

function fixDonationRoundingErrors_forEach :: "nat \<Rightarrow> Donation list \<Rightarrow> error + Donation list" where
  "fixDonationRoundingErrors_forEach index donations =
     (if index < length donations then
        (let donation = donations ! index;
             sum = tokenSum (token donation) donations
         in if sum > WAD then Inl (Error ''Ratios sum to greater than 100%'')
            else (let shortfall = WAD - sum
                  in fixDonationRoundingErrors_forEach (Suc index)
                       (donations[index := donation\<lparr>ratio := ratio donation + shortfall\<rparr>])))
      else Inr donations)"
  by pat_completeness auto
termination
  by (relation "measure (\<lambda>(index, donations). length donations - index)") auto

definition fixDonationRoundingErrors :: "Donation list \<Rightarrow> error + Donation list" where
  "fixDonationRoundingErrors donations = fixDonationRoundingErrors_forEach 0 donations"

subsection \<open>JavaScript numbers\<close>

text \<open>
  A JavaScript \<^verbatim>\<open>number\<close> is an IEEE 754 double: a real, or one of \<^verbatim>\<open>Infinity\<close>,
  \<^verbatim>\<open>-Infinity\<close> and \<^verbatim>\<open>NaN\<close>. Every arithmetic operation on finite operands computes the
  exact real result and rounds it to the nearest double, ties to the even significand
  (\<open>roundToDouble\<close>). The sign of zero is left out: \<^verbatim>\<open>1 / 0\<close> is \<^verbatim>\<open>Infinity\<close>, as it is
  for the zero that \<^verbatim>\<open>?? 0\<close> supplies.
\<close>

datatype number = Fin real | PosInf | NegInf | NaN

text \<open>The number of binary digits of a positive integer.\<close>

function bitLength :: "int \<Rightarrow> int" where
  "bitLength n = (if n \<le> 0 then 0 else 1 + bitLength (n div 2))"
  by pat_completeness auto
termination
  by (relation "measure nat") auto

text \<open>The exponent \<open>e\<close> of a positive real \<open>a\<close>: \<open>2 powi e \<le> a < 2 powi (e + 1)\<close>.\<close>

definition binaryExponent :: "real \<Rightarrow> int" where
  "binaryExponent a =
     (if 1 \<le> a then bitLength \<lfloor>a\<rfloor> - 1 else - bitLength (\<lceil>1 / a\<rceil> - 1))"

definition roundTiesToEven :: "real \<Rightarrow> int" where
  "roundTiesToEven m =
     (let f = \<lfloor>m\<rfloor>; d = m - of_int f
      in if d < 1 / 2 then f else if d > 1 / 2 then f + 1 else if even f then f else f + 1)"

text \<open>
  Rounding to binary64: 53 significant bits, exponents from -1022 to 1023, subnormal
  numbers below \<open>2 powi (- 1022)\<close> in steps of \<open>2 powi (- 1074)\<close>, and overflow to an
  infinity from \<open>2 ^ 1024 - 2 ^ 970\<close> on.
\<close>

definition roundToDouble :: "real \<Rightarrow> number" where
  "roundToDouble y =
     (if y = 0 then Fin 0
      else (let e = max (binaryExponent \<bar>y\<bar>) (- 1022);
                q = 2 powi (e - 52);
                r = of_int (roundTiesToEven (y / q)) * q
            in if r \<ge> 2 ^ 1024 then PosInf
               else if r \<le> - (2 ^ 1024) then NegInf
               else Fin r))"

fun number_add :: "number \<Rightarrow> number \<Rightarrow> number" where
  "number_add NaN _ = NaN"
| "number_add _ NaN = NaN"
| "number_add (Fin a) (Fin b) = roundToDouble (a + b)"
| "number_add PosInf NegInf = NaN"
| "number_add NegInf PosInf = NaN"
| "number_add PosInf _ = PosInf"
| "number_add _ PosInf = PosInf"
| "number_add NegInf _ = NegInf"
| "number_add _ NegInf = NegInf"

fun number_mul :: "number \<Rightarrow> number \<Rightarrow> number" where
  "number_mul NaN _ = NaN"
| "number_mul _ NaN = NaN"
| "number_mul (Fin a) (Fin b) = roundToDouble (a * b)"
| "number_mul (Fin a) PosInf = (if a = 0 then NaN else if a > 0 then PosInf else NegInf)"
| "number_mul (Fin a) NegInf = (if a = 0 then NaN else if a > 0 then NegInf else PosInf)"
| "number_mul PosInf (Fin b) = (if b = 0 then NaN else if b > 0 then PosInf else NegInf)"
| "number_mul NegInf (Fin b) = (if b = 0 then NaN else if b > 0 then NegInf else PosInf)"
| "number_mul PosInf PosInf = PosInf"
| "number_mul NegInf NegInf = PosInf"
| "number_mul PosInf NegInf = NegInf"
| "number_mul NegInf PosInf = NegInf"

fun number_div :: "number \<Rightarrow> number \<Rightarrow> number" where
  "number_div NaN _ = NaN"
| "number_div _ NaN = NaN"
| "number_div (Fin a) (Fin b) =
     (if b \<noteq> 0 then roundToDouble (a / b)
      else if a = 0 then NaN else if a > 0 then PosInf else NegInf)"
| "number_div (Fin a) PosInf = Fin 0"
| "number_div (Fin a) NegInf = Fin 0"
| "number_div PosInf (Fin b) = (if b \<ge> 0 then PosInf else NegInf)"
| "number_div NegInf (Fin b) = (if b \<ge> 0 then NegInf else PosInf)"
| "number_div _ _ = NaN"

text \<open>The comparisons \<^verbatim>\<open>>=\<close> and \<^verbatim>\<open><\<close>; both are false when an operand is \<^verbatim>\<open>NaN\<close>.\<close>

fun number_ge :: "number \<Rightarrow> number \<Rightarrow> bool" where
  "number_ge NaN _ = False"
| "number_ge _ NaN = False"
| "number_ge (Fin a) (Fin b) = (a \<ge> b)"
| "number_ge PosInf _ = True"
| "number_ge _ NegInf = True"
| "number_ge _ _ = False"

fun number_lt :: "number \<Rightarrow> number \<Rightarrow> bool" where
  "number_lt NaN _ = False"
| "number_lt _ NaN = False"
| "number_lt (Fin a) (Fin b) = (a < b)"
| "number_lt PosInf _ = False"
| "number_lt _ NegInf = False"
| "number_lt _ _ = True"

subsection \<open>The token value converter (src/app/src/store/cart.ts)\<close>

text \<open>
  \<^verbatim>\<open>quotes\<close> is the store's \<^verbatim>\<open>Record<string, number>\<close> from token address to DAI exchange
  rate, passed in as a map; \<^verbatim>\<open>quotes.value[tokenAddress] ?? 0\<close> is 0 for an address with
  no entry. The function has no \<^verbatim>\<open>throw\<close> and calls nothing that throws: it returns a
  number on every path. The default \<^verbatim>\<open>direction = 1\<close> is given by the caller.
\<close>

definition getConvertedAmount :: "(string \<rightharpoonup> number) \<Rightarrow> number \<Rightarrow> string \<Rightarrow> number \<Rightarrow> number" where
  "getConvertedAmount quotes amount tokenAddress direction =
     (let exchangeRate = (case quotes tokenAddress of Some rate \<Rightarrow> rate | None \<Rightarrow> Fin 0)
      in number_mul amount
           (if direction = Fin 1 then exchangeRate else number_div (Fin 1) exchangeRate))"

subsection \<open>Round status (src/app/src/utils/data/grantRounds.ts)\<close>

text \<open>
  \<^verbatim>\<open>BigNumber.from(t).toNumber()\<close> of the ethers library: the integer as a number when its
  magnitude is below \<open>2 ^ 53\<close>, and the library's overflow fault (an exception with code
  \<^verbatim>\<open>NUMERIC_FAULT\<close>) otherwise.
\<close>

definition toNumber :: "int \<Rightarrow> error + number" where
  "toNumber t =
     (if \<bar>t\<bar> < 2 ^ 53 then Inr (Fin (of_int t)) else Inl (NumericFault ''overflow''))"

text \<open>
  The \<^verbatim>\<open>status\<close> field that \<^verbatim>\<open>getGrantRound\<close> computes, with the clock passed in:
  \<open>dateNow\<close> is the value of \<^verbatim>\<open>Date.now()\<close>, in milliseconds, and
  \<^verbatim>\<open>now = Date.now() / 1000\<close>. The conversions run in the source's order: \<^verbatim>\<open>&&\<close>
  converts \<^verbatim>\<open>endTime\<close> only when \<^verbatim>\<open>now >= startTime\<close>, and the second test converts
  \<^verbatim>\<open>startTime\<close> again when the first is false.
\<close>

definition getGrantRound_status :: "real \<Rightarrow> int \<Rightarrow> int \<Rightarrow> error + string" where
  "getGrantRound_status dateNow startTime endTime =
     (let now = number_div (Fin dateNow) (Fin 1000)
      in case (case toNumber startTime of
                 Inl e \<Rightarrow> Inl e
               | Inr start \<Rightarrow>
                   if number_ge now start
                   then (case toNumber endTime of
                           Inl e \<Rightarrow> Inl e
                         | Inr end' \<Rightarrow> Inr (number_lt now end'))
                   else Inr False) of
           Inl e \<Rightarrow> Inl e
         | Inr True \<Rightarrow> Inr ''Active''
         | Inr False \<Rightarrow>
             (case toNumber startTime of
                Inl e \<Rightarrow> Inl e
              | Inr start \<Rightarrow> Inr (if number_lt now start then ''Upcoming'' else ''Completed'')))"

subsection \<open>Rounds, predictions and summaries (src/app/src/utils/data/grantRounds.ts)\<close>

text \<open>
  The object types come from the package \<^verbatim>\<open>@dgrants/types\<close>, which is not among the
  sources; each record has the fields that the source reads or writes. A grant id is the
  number that \<^verbatim>\<open>Number(grantId)\<close> gives for the id string, and that the metadata's grant
  list holds. An optional field is an \<open>option\<close>, with \<open>None\<close> for \<^verbatim>\<open>undefined\<close>.
\<close>

record TokenInfo =
  address :: string
  symbol :: string
  decimals :: nat

text \<open>
  Modelled from the spec: the type \<^verbatim>\<open>Contribution\<close>, "{ payer address, grant identifier,
  round identifier(s), amount, transaction hash }"; the source reads \<^verbatim>\<open>amount\<close> and
  \<^verbatim>\<open>inRounds\<close>, the optional list of round addresses.
\<close>

record Contribution =
  grantId :: nat
  amount :: number
  inRounds :: "string list option"
  txHash :: string

record Prediction =
  predictionPoint :: number
  predictedGrantMatch :: number
  predictionDiff :: number

record GrantPrediction =
  grantId :: nat
  grantRound :: string
  totalPot :: number
  predictions :: "Prediction list"

text \<open>The object \<^verbatim>\<open>grantRoundCLR\<close> that \<^verbatim>\<open>getGrantRoundGrantData\<close> builds.\<close>

record GrantRoundCLR =
  grantRound :: string
  totalPot :: number
  matchingTokenDecimals :: nat
  contributions :: "Contribution list"
  predictions :: "(nat \<rightharpoonup> GrantPrediction) option"

text \<open>The object \<^verbatim>\<open>grantRound\<close> that \<^verbatim>\<open>getGrantRound\<close> builds.\<close>

record GrantRound =
  startTime :: int
  endTime :: int
  metadataAdmin :: string
  payoutAdmin :: string
  registryAddress :: string
  metaPtr :: string
  hasPaidOut :: bool
  donationToken :: TokenInfo
  matchingToken :: TokenInfo
  address :: string
  funds :: number
  status :: string
  registry :: string

record GrantRoundMetadataResolution =
  name :: "string option"
  grants :: "nat list option"

text \<open>
  The first argument of \<^verbatim>\<open>formatNumber\<close> is a number, or the string that
  \<^verbatim>\<open>toString()\<close> printed a number as; the string is kept as the number it prints.
\<close>

datatype BigNumberish = Number number | NumberString number

text \<open>
  The summary object of one round. \<open>'f\<close> is what \<^verbatim>\<open>formatNumber\<close> returns; \<open>matching\<close>
  and the three prediction fields are \<^verbatim>\<open>undefined\<close> when the round has no prediction for
  the grant.
\<close>

record 'f GrantsRoundDetails =
  grantId :: nat
  address :: string
  metaPtr :: string
  name :: string
  matchingToken :: TokenInfo
  donationToken :: TokenInfo
  contributions :: "Contribution list"
  balance :: 'f
  matching :: "'f option"
  prediction1 :: "'f option"
  prediction10 :: "'f option"
  prediction100 :: "'f option"

text \<open>
  \<^verbatim>\<open>roundData.predictions && roundData.predictions[Number(grantId)]\<close>. The argument is
  \<^verbatim>\<open>grantRoundsCLRData[round.address]\<close>, which is \<^verbatim>\<open>undefined\<close> for an address with no
  entry; reading \<^verbatim>\<open>predictions\<close> of \<^verbatim>\<open>undefined\<close> throws a TypeError.
\<close>

definition getPredictionsForGrantInRound ::
    "nat \<Rightarrow> GrantRoundCLR option \<Rightarrow> error + GrantPrediction option" where
  "getPredictionsForGrantInRound grantId' roundData =
     (case roundData of
        None \<Rightarrow> Inl (TypeError ''predictions'')
      | Some data \<Rightarrow>
          Inr (case GrantRoundCLR.predictions data of
                 None \<Rightarrow> None
               | Some table \<Rightarrow> table grantId'))"

text \<open>
  \<^verbatim>\<open>predictions && formatNumber(predictions.predictions[i].field, 2)\<close>: \<^verbatim>\<open>undefined\<close>
  without a prediction, and a TypeError when the prediction has no entry at index \<open>i\<close>.
\<close>

definition formattedPrediction ::
    "(BigNumberish \<Rightarrow> nat \<Rightarrow> 'f) \<Rightarrow> GrantPrediction option \<Rightarrow> nat \<Rightarrow>
     (Prediction \<Rightarrow> number) \<Rightarrow> string \<Rightarrow> error + 'f option" where
  "formattedPrediction formatNumber predictions' i field fieldName =
     (case predictions' of
        None \<Rightarrow> Inr None
      | Some prediction \<Rightarrow>
          (if i < length (GrantPrediction.predictions prediction)
           then Inr (Some (formatNumber
                  (Number (field (GrantPrediction.predictions prediction ! i))) 2))
           else Inl (TypeError fieldName)))"

text \<open>
  The callback of \<^verbatim>\<open>rounds.map\<close> in \<^verbatim>\<open>getGrantsGrantRoundDetails\<close>. The helpers
  \<^verbatim>\<open>formatNumber\<close> (src/utils/utils) and \<^verbatim>\<open>filterContributionsByGrantRound\<close>
  (./contributions) are not among the sources and are parameters. The statements run in
  the source's order: the predictions are read first, the object literal evaluates
  \<^verbatim>\<open>roundsMetadata[round.metaPtr].name\<close> before the prediction fields.
\<close>

definition roundDetails ::
    "(BigNumberish \<Rightarrow> nat \<Rightarrow> 'f) \<Rightarrow> (GrantRound \<Rightarrow> Contribution list \<Rightarrow> Contribution list) \<Rightarrow>
     nat \<Rightarrow> (string \<rightharpoonup> GrantRoundMetadataResolution) \<Rightarrow> (string \<rightharpoonup> GrantRoundCLR) \<Rightarrow>
     Contribution list \<Rightarrow> GrantRound \<Rightarrow> error + 'f GrantsRoundDetails" where
  "roundDetails formatNumber filterContributionsByGrantRound grantId' roundsMetadata
       grantRoundsCLRData grant_contributions round' =
     (case getPredictionsForGrantInRound grantId' (grantRoundsCLRData (GrantRound.address round')) of
        Inl e \<Rightarrow> Inl e
      | Inr predictions' \<Rightarrow>
     (let roundContributions = filterContributionsByGrantRound round' grant_contributions;
          roundsContributionTotal =
            NumberString (fold (\<lambda>contrib carr. number_add (amount contrib) carr)
                            roundContributions (Fin 0))
      in case roundsMetadata (GrantRound.metaPtr round') of
        None \<Rightarrow> Inl (TypeError ''name'')
      | Some metadata \<Rightarrow>
     (case formattedPrediction formatNumber predictions' 0 predictedGrantMatch
             ''predictedGrantMatch'' of
        Inl e \<Rightarrow> Inl e
      | Inr matching0 \<Rightarrow>
     (case formattedPrediction formatNumber predictions' 1 predictionDiff ''predictionDiff'' of
        Inl e \<Rightarrow> Inl e
      | Inr diff1 \<Rightarrow>
     (case formattedPrediction formatNumber predictions' 2 predictionDiff ''predictionDiff'' of
        Inl e \<Rightarrow> Inl e
      | Inr diff10 \<Rightarrow>
     (case formattedPrediction formatNumber predictions' 3 predictionDiff ''predictionDiff'' of
        Inl e \<Rightarrow> Inl e
      | Inr diff100 \<Rightarrow>
          Inr \<lparr>GrantsRoundDetails.grantId = grantId',
               address = GrantRound.address round',
               metaPtr = GrantRound.metaPtr round',
               name = (case GrantRoundMetadataResolution.name metadata of
                         Some n \<Rightarrow> n | None \<Rightarrow> []),
               matchingToken = GrantRound.matchingToken round',
               donationToken = GrantRound.donationToken round',
               contributions = roundContributions,
               balance = formatNumber roundsContributionTotal 2,
               matching = matching0,
               prediction1 = diff1,
               prediction10 = diff10,
               prediction100 = diff100\<rparr>))))))"

text \<open>\<^verbatim>\<open>Array.prototype.map\<close> with a callback that can throw: the first exception ends the call.\<close>

fun arrayMap :: "('a \<Rightarrow> error + 'b) \<Rightarrow> 'a list \<Rightarrow> error + 'b list" where
  "arrayMap f [] = Inr []"
| "arrayMap f (x # xs) =
     (case f x of
        Inl e \<Rightarrow> Inl e
      | Inr y \<Rightarrow> (case arrayMap f xs of Inl e \<Rightarrow> Inl e | Inr ys \<Rightarrow> Inr (y # ys)))"

text \<open>
  \<^verbatim>\<open>getGrantsGrantRoundDetails\<close>; \<^verbatim>\<open>filterContributionsByGrantId\<close> (./contributions) is
  the third helper that is a parameter.
\<close>

definition getGrantsGrantRoundDetails ::
    "(BigNumberish \<Rightarrow> nat \<Rightarrow> 'f) \<Rightarrow> (nat \<Rightarrow> Contribution list \<Rightarrow> Contribution list) \<Rightarrow>
     (GrantRound \<Rightarrow> Contribution list \<Rightarrow> Contribution list) \<Rightarrow>
     nat \<Rightarrow> GrantRound list \<Rightarrow> (string \<rightharpoonup> GrantRoundMetadataResolution) \<Rightarrow>
     (string \<rightharpoonup> GrantRoundCLR) \<Rightarrow> Contribution list \<Rightarrow> error + 'f GrantsRoundDetails list" where
  "getGrantsGrantRoundDetails formatNumber filterContributionsByGrantId
       filterContributionsByGrantRound grantId' rounds' roundsMetadata grantRoundsCLRData
       contributions' =
     (let grant_contributions = filterContributionsByGrantId grantId' contributions'
      in arrayMap
           (roundDetails formatNumber filterContributionsByGrantRound grantId' roundsMetadata
              grantRoundsCLRData grant_contributions)
           rounds')"

subsection \<open>The helpers of the aggregator\<close>

text \<open>
  The three helpers that \<open>getGrantsGrantRoundDetails\<close> takes as parameters, as the
  specification describes them; the examples below are evaluated with them.
\<close>

text \<open>
  Modelled from the spec: \<^verbatim>\<open>filterContributionsByGrantId\<close> of ./contributions, which is
  not among the sources. The contribution source is "filterable by round and grant": this
  keeps the contributions made to the grant.
\<close>

definition filterContributionsByGrantId :: "nat \<Rightarrow> Contribution list \<Rightarrow> Contribution list" where
  "filterContributionsByGrantId grantId' contributions' =
     filter (\<lambda>contribution. Contribution.grantId contribution = grantId') contributions'"

text \<open>
  Modelled from the spec: \<^verbatim>\<open>filterContributionsByGrantRound\<close> of ./contributions, which
  is not among the sources. It keeps the contributions whose rounds include the round, the
  test that \<^verbatim>\<open>getGrantRoundGrantData\<close> makes with \<^verbatim>\<open>contribution.inRounds?.includes\<close>.
\<close>

definition filterContributionsByGrantRound :: "GrantRound \<Rightarrow> Contribution list \<Rightarrow> Contribution list" where
  "filterContributionsByGrantRound round' contributions' =
     filter (\<lambda>contribution.
               case inRounds contribution of
                 None \<Rightarrow> False
               | Some addresses \<Rightarrow> GrantRound.address round' \<in> set addresses)
       contributions'"

text \<open>
  Modelled from the spec: \<^verbatim>\<open>formatNumber\<close> of src/utils/utils, which is not among the
  sources. The spec says only that a value is "formatted to 2 decimal places"; the text
  produced is kept as the pair of the value and the number of decimals.
\<close>

definition formatNumber :: "BigNumberish \<Rightarrow> nat \<Rightarrow> BigNumberish \<times> nat" where
  "formatNumber v decimals' = (v, decimals')"

section \<open>Example inputs\<close>

text \<open>
  Three equal DAI items, each with the truncated ratio of one third, and one WETH item
  that is the whole of its token.
\<close>

definition cart_thirds :: "Donation list" where
  "cart_thirds =
     [\<lparr>Donation.grantId = 1, token = ''DAI'', ratio = 333333333333333333, rounds = [''0xRound'']\<rparr>,
      \<lparr>Donation.grantId = 2, token = ''WETH'', ratio = 1000000000000000000, rounds = [''0xRound'']\<rparr>,
      \<lparr>Donation.grantId = 3, token = ''DAI'', ratio = 333333333333333333, rounds = [''0xRound'']\<rparr>,
      \<lparr>Donation.grantId = 4, token = ''DAI'', ratio = 333333333333333333, rounds = [''0xRound'']\<rparr>]"

text \<open>Two DAI items of 60% each: the DAI ratios sum to 120%.\<close>

definition cart_over :: "Donation list" where
  "cart_over =
     [\<lparr>Donation.grantId = 1, token = ''WETH'', ratio = 1000000000000000000, rounds = [''0xRound'']\<rparr>,
      \<lparr>Donation.grantId = 2, token = ''DAI'', ratio = 600000000000000000, rounds = [''0xRound'']\<rparr>,
      \<lparr>Donation.grantId = 3, token = ''DAI'', ratio = 600000000000000000, rounds = [''0xRound'']\<rparr>]"

text \<open>A quotes table with two tokens; \<open>''GTC''\<close> has no entry in it.\<close>

definition quotes_two :: "string \<rightharpoonup> number" where
  "quotes_two = [''WETH'' \<mapsto> Fin 2500, ''DAI'' \<mapsto> Fin 1]"


definition DAI :: TokenInfo where
  "DAI = \<lparr>TokenInfo.address = ''0xDAI'', symbol = ''DAI'', decimals = 18\<rparr>"

definition round_A :: GrantRound where
  "round_A =
     \<lparr>startTime = 900, endTime = 1100, metadataAdmin = ''0xAdmin'', payoutAdmin = ''0xAdmin'',
      registryAddress = ''0xRegistry'', metaPtr = ''ptrA'', hasPaidOut = False,
      donationToken = DAI, matchingToken = DAI, address = ''0xRoundA'', funds = Fin 1000,
      status = ''Active'', registry = ''0xRegistry''\<rparr>"

definition round_B :: GrantRound where
  "round_B =
     \<lparr>startTime = 2000, endTime = 3000, metadataAdmin = ''0xAdmin'', payoutAdmin = ''0xAdmin'',
      registryAddress = ''0xRegistry'', metaPtr = ''ptrB'', hasPaidOut = False,
      donationToken = DAI, matchingToken = DAI, address = ''0xRoundB'', funds = Fin 500,
      status = ''Upcoming'', registry = ''0xRegistry''\<rparr>"

text \<open>Grants 2 and 3 are the members of round A; grant 4 is a member of round B only.\<close>

definition metadata_AB :: "string \<rightharpoonup> GrantRoundMetadataResolution" where
  "metadata_AB =
     [''ptrA'' \<mapsto> \<lparr>GrantRoundMetadataResolution.name = Some ''Round A'', grants = Some [2, 3]\<rparr>,
      ''ptrB'' \<mapsto> \<lparr>GrantRoundMetadataResolution.name = Some ''Round B'', grants = Some [4]\<rparr>]"

text \<open>
  The prediction of grant 2 in round A at the points 0, 1, 10, 100, 1000 and 10000, with
  a different \<open>predictionDiff\<close> at each point.
\<close>

definition prediction_grant2 :: GrantPrediction where
  "prediction_grant2 =
     \<lparr>GrantPrediction.grantId = 2, grantRound = ''0xRoundA'', totalPot = Fin 1000,
      predictions =
        [\<lparr>predictionPoint = Fin 0, predictedGrantMatch = Fin 40, predictionDiff = Fin 0\<rparr>,
         \<lparr>predictionPoint = Fin 1, predictedGrantMatch = Fin 42, predictionDiff = Fin 2\<rparr>,
         \<lparr>predictionPoint = Fin 10, predictedGrantMatch = Fin 52, predictionDiff = Fin 12\<rparr>,
         \<lparr>predictionPoint = Fin 100, predictedGrantMatch = Fin 120, predictionDiff = Fin 80\<rparr>,
         \<lparr>predictionPoint = Fin 1000, predictedGrantMatch = Fin 340, predictionDiff = Fin 300\<rparr>,
         \<lparr>predictionPoint = Fin 10000, predictedGrantMatch = Fin 940, predictionDiff = Fin 900\<rparr>]\<rparr>"

definition contributions_A :: "Contribution list" where
  "contributions_A =
     [\<lparr>Contribution.grantId = 2, amount = Fin 5, inRounds = Some [''0xRoundA''], txHash = ''0x01''\<rparr>,
      \<lparr>Contribution.grantId = 3, amount = Fin 9, inRounds = Some [''0xRoundA''], txHash = ''0x02''\<rparr>,
      \<lparr>Contribution.grantId = 2, amount = Fin 7, inRounds = Some [''0xRoundA''], txHash = ''0x03''\<rparr>]"

text \<open>The CLR data has an entry for round A and none for round B.\<close>

definition clr_only_A :: "string \<rightharpoonup> GrantRoundCLR" where
  "clr_only_A =
     [''0xRoundA'' \<mapsto>
        \<lparr>GrantRoundCLR.grantRound = ''0xRoundA'', totalPot = Fin 1000, matchingTokenDecimals = 18,
         contributions = contributions_A, predictions = Some [2 \<mapsto> prediction_grant2]\<rparr>]"

section \<open>The ratio allocator: \<^verbatim>\<open>fixDonationRoundingErrors\<close>\<close>

declare fixDonationRoundingErrors_forEach.simps [simp del]

lemma fold_acc_sum_list:
  "fold (\<lambda>curr acc. acc + g curr) xs (a::int) = a + sum_list (map g xs)"
  by (induction xs arbitrary: a) simp_all

lemma tokenSum_sum_list:
  "tokenSum t ds = sum_list (map (\<lambda>curr. if token curr = t then ratio curr else 0) ds)"
  unfolding tokenSum_def by (simp add: fold_acc_sum_list)

lemma sum_list_update_int:
  "k < length xs \<Longrightarrow> sum_list (xs[k := x]) = sum_list xs + x - (xs ! k :: int)"
  by (induction xs arbitrary: k) (auto split: nat.splits)

lemma tokenSum_update:
  assumes "i < length ds"
  shows "tokenSum t (ds[i := (ds ! i)\<lparr>ratio := r\<rparr>]) =
         tokenSum t ds + (if token (ds ! i) = t then r - ratio (ds ! i) else 0)"
  using assms by (simp add: tokenSum_sum_list map_update sum_list_update_int)

lemma forEach_returns:
  assumes "i \<le> length ds"
    and "\<forall>j<length ds. tokenSum (token (ds ! j)) ds \<le> WAD"
    and "\<forall>j<i. tokenSum (token (ds ! j)) ds = WAD"
  shows "\<exists>ds'. fixDonationRoundingErrors_forEach i ds = Inr ds' \<and> length ds' = length ds \<and>
           (\<forall>j<length ds. tokenSum (token (ds ! j)) ds' = WAD) \<and>
           (\<forall>j<length ds. ds' ! j = (ds ! j)\<lparr>ratio := ratio (ds ! j) +
               (if i \<le> j \<and> (\<forall>k<j. token (ds ! k) \<noteq> token (ds ! j))
                then WAD - tokenSum (token (ds ! j)) ds else 0)\<rparr>)"
  using assms
proof (induction "length ds - i" arbitrary: i ds)
  case 0
  then have "i = length ds" by simp
  with 0 show ?case by (simp add: fixDonationRoundingErrors_forEach.simps)
next
  case (Suc n)
  then have lt: "i < length ds" by simp
  define d where "d = ds ! i"
  define S where "S = tokenSum (token d) ds"
  define ds1 where "ds1 = ds[i := d\<lparr>ratio := ratio d + (WAD - S)\<rparr>]"
  have S_le: "S \<le> WAD" using Suc.prems(2) lt by (simp add: S_def d_def)
  have unfold: "fixDonationRoundingErrors_forEach i ds = fixDonationRoundingErrors_forEach (Suc i) ds1"
    using lt S_le by (subst fixDonationRoundingErrors_forEach.simps) (simp add: Let_def d_def S_def ds1_def)
  have len1: "length ds1 = length ds" by (simp add: ds1_def)
  have tok1: "\<And>j. j < length ds \<Longrightarrow> token (ds1 ! j) = token (ds ! j)"
    using lt by (auto simp: ds1_def d_def nth_list_update)
  have sum1: "\<And>t. tokenSum t ds1 = tokenSum t ds + (if token d = t then WAD - S else 0)"
    unfolding ds1_def d_def using tokenSum_update [OF lt] by simp
  have sum_d: "tokenSum (token d) ds1 = WAD" by (simp add: sum1 S_def)
  have pre1: "\<forall>j<length ds1. tokenSum (token (ds1 ! j)) ds1 \<le> WAD"
    using Suc.prems(2) sum_d by (auto simp: len1 tok1 sum1)
  have inv1: "\<forall>j<Suc i. tokenSum (token (ds1 ! j)) ds1 = WAD"
  proof (intro allI impI)
    fix j assume "j < Suc i"
    then have jl: "j < length ds" using lt by simp
    show "tokenSum (token (ds1 ! j)) ds1 = WAD"
    proof (cases "j = i")
      case True
      then show ?thesis using sum_d tok1 [OF jl] by (simp add: d_def)
    next
      case False
      with \<open>j < Suc i\<close> have "j < i" by simp
      then have "tokenSum (token (ds ! j)) ds = WAD" using Suc.prems(3) by simp
      then show ?thesis using sum_d tok1 [OF jl] by (auto simp: sum1)
    qed
  qed
  have "n = length ds1 - Suc i" using Suc.hyps(2) by (simp add: len1)
  moreover have "Suc i \<le> length ds1" using lt by (simp add: len1)
  ultimately obtain ds' where
    r: "fixDonationRoundingErrors_forEach (Suc i) ds1 = Inr ds'" and l: "length ds' = length ds1" and
    s: "\<forall>j<length ds1. tokenSum (token (ds1 ! j)) ds' = WAD" and
    c: "\<forall>j<length ds1. ds' ! j = (ds1 ! j)\<lparr>ratio := ratio (ds1 ! j) +
               (if Suc i \<le> j \<and> (\<forall>k<j. token (ds1 ! k) \<noteq> token (ds1 ! j))
                then WAD - tokenSum (token (ds1 ! j)) ds1 else 0)\<rparr>"
    using Suc.hyps(1) [of ds1 "Suc i"] pre1 inv1 by blast
  have "ds' ! j = (ds ! j)\<lparr>ratio := ratio (ds ! j) +
               (if i \<le> j \<and> (\<forall>k<j. token (ds ! k) \<noteq> token (ds ! j))
                then WAD - tokenSum (token (ds ! j)) ds else 0)\<rparr>" if jl: "j < length ds" for j
  proof -
    have first_eq: "(\<forall>k<j. token (ds1 ! k) \<noteq> token (ds1 ! j)) = (\<forall>k<j. token (ds ! k) \<noteq> token (ds ! j))"
      using jl by (auto simp: tok1)
    consider "j < i" | "j = i" | "i < j" by linarith
    then show ?thesis
    proof cases
      case 1
      then show ?thesis using c jl by (simp add: len1 ds1_def)
    next
      case 2
      have "WAD - S = 0" if "\<not> (\<forall>k<i. token (ds ! k) \<noteq> token (ds ! i))"
      proof -
        from that obtain k where "k < i" "token (ds ! k) = token (ds ! i)" by auto
        then show ?thesis using Suc.prems(3) by (metis S_def d_def diff_self)
      qed
      then show ?thesis using c jl 2 lt
        by (auto simp: len1 ds1_def d_def S_def)
    next
      case 3
      have "tokenSum (token (ds ! j)) ds1 = tokenSum (token (ds ! j)) ds"
        if "\<forall>k<j. token (ds ! k) \<noteq> token (ds ! j)"
        using that 3 by (auto simp: sum1 d_def)
      then show ?thesis using c jl 3 first_eq
        by (auto simp: len1 tok1 ds1_def)
    qed
  qed
  then show ?case using unfold r l s by (simp add: len1 tok1)
qed

lemma forEach_throws:
  assumes "i \<le> j" and "j < length ds" and "tokenSum (token (ds ! j)) ds > WAD"
  shows "fixDonationRoundingErrors_forEach i ds = Inl (Error ''Ratios sum to greater than 100%'')"
  using assms
proof (induction "length ds - i" arbitrary: i ds)
  case 0
  then show ?case by simp
next
  case (Suc n)
  then have lt: "i < length ds" by simp
  show ?case
  proof (cases "tokenSum (token (ds ! i)) ds > WAD")
    case True
    then show ?thesis using lt by (subst fixDonationRoundingErrors_forEach.simps) (simp add: Let_def)
  next
    case False
    define ds1 where "ds1 = ds[i := (ds ! i)\<lparr>ratio := ratio (ds ! i) + (WAD - tokenSum (token (ds ! i)) ds)\<rparr>]"
    have unfold: "fixDonationRoundingErrors_forEach i ds = fixDonationRoundingErrors_forEach (Suc i) ds1"
      using lt False by (subst fixDonationRoundingErrors_forEach.simps) (simp add: Let_def ds1_def)
    have ne: "token (ds ! i) \<noteq> token (ds ! j)" using False Suc.prems(3) by auto
    then have "i \<noteq> j" by auto
    then have ij: "Suc i \<le> j" using Suc.prems(1) by simp
    have "token (ds1 ! j) = token (ds ! j)" using \<open>i \<noteq> j\<close> by (simp add: ds1_def)
    moreover have "tokenSum (token (ds ! j)) ds1 = tokenSum (token (ds ! j)) ds"
      unfolding ds1_def using tokenSum_update [OF lt] ne by simp
    ultimately have "tokenSum (token (ds1 ! j)) ds1 > WAD" using Suc.prems(3) by simp
    moreover have "n = length ds1 - Suc i" using Suc.hyps(2) by (simp add: ds1_def)
    moreover have "j < length ds1" using Suc.prems(2) by (simp add: ds1_def)
    ultimately show ?thesis using Suc.hyps(1) [of ds1 "Suc i"] ij unfold by simp
  qed
qed


lemma fixDonationRoundingErrors_returns:
  assumes "\<forall>d\<in>set donations. tokenSum (token d) donations \<le> WAD"
  shows "\<exists>fixed. fixDonationRoundingErrors donations = Inr fixed \<and>
           length fixed = length donations \<and>
           (\<forall>j<length donations. tokenSum (token (donations ! j)) fixed = WAD) \<and>
           (\<forall>j<length donations. fixed ! j = (donations ! j)\<lparr>ratio := ratio (donations ! j) +
               (if \<forall>k<j. token (donations ! k) \<noteq> token (donations ! j)
                then WAD - tokenSum (token (donations ! j)) donations else 0)\<rparr>)"
proof -
  have "\<forall>j<length donations. tokenSum (token (donations ! j)) donations \<le> WAD"
    using assms by simp
  then show ?thesis
    unfolding fixDonationRoundingErrors_def
    using forEach_returns [of 0 donations] by simp
qed

lemma fixed_tokens:
  assumes "length fixed = length donations"
    and "\<forall>j<length donations. token (fixed ! j) = token (donations ! j)"
  shows "map token fixed = map token donations"
  using assms by (simp add: list_eq_iff_nth_eq)

text \<open>
  C1. Whenever the input ratios of every token sum to at most \<open>WAD\<close>,
  \<open>fixDonationRoundingErrors\<close> returns, the donations keep their tokens, and in the
  returned array the ratios of the donations carrying any one token sum to exactly
  \<open>WAD\<close> (1e18).
\<close>

theorem fixDonationRoundingErrors_sums_to_WAD:
  assumes "\<forall>d\<in>set donations. tokenSum (token d) donations \<le> WAD"
  shows "\<exists>fixed. fixDonationRoundingErrors donations = Inr fixed \<and>
           map token fixed = map token donations \<and>
           (\<forall>d\<in>set fixed. tokenSum (token d) fixed = WAD)"
proof -
  from fixDonationRoundingErrors_returns [OF assms] obtain fixed where
    r: "fixDonationRoundingErrors donations = Inr fixed" and
    l: "length fixed = length donations" and
    s: "\<forall>j<length donations. tokenSum (token (donations ! j)) fixed = WAD" and
    c: "\<forall>j<length donations. fixed ! j = (donations ! j)\<lparr>ratio := ratio (donations ! j) +
               (if \<forall>k<j. token (donations ! k) \<noteq> token (donations ! j)
                then WAD - tokenSum (token (donations ! j)) donations else 0)\<rparr>"
    by blast
  have t: "\<forall>j<length donations. token (fixed ! j) = token (donations ! j)"
    using c by simp
  have "tokenSum (token d) fixed = WAD" if "d \<in> set fixed" for d
  proof -
    from that obtain j where "j < length fixed" "d = fixed ! j"
      by (auto simp: in_set_conv_nth)
    then show ?thesis using s t l by simp
  qed
  then show ?thesis using r fixed_tokens [OF l t] by blast
qed

theorem fixDonationRoundingErrors_sums_to_WAD_witness:
  "tokenSum ''DAI'' cart_thirds = 999999999999999999 \<and>
   tokenSum ''WETH'' cart_thirds = WAD \<and>
   (\<exists>fixed. fixDonationRoundingErrors cart_thirds = Inr fixed \<and>
      tokenSum ''DAI'' fixed = WAD \<and> tokenSum ''WETH'' fixed = WAD)"
proof -
  have pre: "\<forall>d\<in>set cart_thirds. tokenSum (token d) cart_thirds \<le> WAD"
    by (simp add: cart_thirds_def tokenSum_def WAD_def)
  from fixDonationRoundingErrors_sums_to_WAD [OF pre] obtain fixed where
    r: "fixDonationRoundingErrors cart_thirds = Inr fixed" and
    t: "map token fixed = map token cart_thirds" and
    s: "\<forall>d\<in>set fixed. tokenSum (token d) fixed = WAD"
    by blast
  from t have "token ` set fixed = {''DAI'', ''WETH''}"
    unfolding set_map [symmetric] by (auto simp: cart_thirds_def)
  then have "''DAI'' \<in> token ` set fixed" and "''WETH'' \<in> token ` set fixed"
    by simp_all
  with s have "tokenSum ''DAI'' fixed = WAD" and "tokenSum ''WETH'' fixed = WAD"
    by auto
  with r show ?thesis
    by (auto simp: cart_thirds_def tokenSum_def WAD_def)
qed

text \<open>
  C2. Under the same precondition the whole shortfall of a token,
  \<open>WAD - tokenSum t donations\<close>, is added to the first donation carrying that token in
  input order (the one with no earlier donation of the same token); every other donation
  comes back as it was given.
\<close>

theorem fixDonationRoundingErrors_first_of_token_takes_shortfall:
  assumes "\<forall>d\<in>set donations. tokenSum (token d) donations \<le> WAD"
  shows "\<exists>fixed. fixDonationRoundingErrors donations = Inr fixed \<and>
           length fixed = length donations \<and>
           (\<forall>j<length donations.
              (\<forall>k<j. token (donations ! k) \<noteq> token (donations ! j)) \<longrightarrow>
                fixed ! j = (donations ! j)\<lparr>ratio := ratio (donations ! j) +
                  (WAD - tokenSum (token (donations ! j)) donations)\<rparr>) \<and>
           (\<forall>j<length donations.
              (\<exists>k<j. token (donations ! k) = token (donations ! j)) \<longrightarrow>
                fixed ! j = donations ! j)"
proof -
  from fixDonationRoundingErrors_returns [OF assms] obtain fixed where
    r: "fixDonationRoundingErrors donations = Inr fixed" and
    l: "length fixed = length donations" and
    c: "\<forall>j<length donations. fixed ! j = (donations ! j)\<lparr>ratio := ratio (donations ! j) +
               (if \<forall>k<j. token (donations ! k) \<noteq> token (donations ! j)
                then WAD - tokenSum (token (donations ! j)) donations else 0)\<rparr>"
    by blast
  have "fixed ! j = (donations ! j)\<lparr>ratio := ratio (donations ! j) +
          (WAD - tokenSum (token (donations ! j)) donations)\<rparr>"
    if "j < length donations" "\<forall>k<j. token (donations ! k) \<noteq> token (donations ! j)" for j
    using c that by simp
  moreover have "fixed ! j = donations ! j"
    if "j < length donations" "\<exists>k<j. token (donations ! k) = token (donations ! j)" for j
  proof -
    from that(2) have "\<not> (\<forall>k<j. token (donations ! k) \<noteq> token (donations ! j))" by blast
    then have "(if \<forall>k<j. token (donations ! k) \<noteq> token (donations ! j)
                then WAD - tokenSum (token (donations ! j)) donations else 0) = 0"
      by (rule if_not_P)
    moreover have "fixed ! j = (donations ! j)\<lparr>ratio := ratio (donations ! j) +
               (if \<forall>k<j. token (donations ! k) \<noteq> token (donations ! j)
                then WAD - tokenSum (token (donations ! j)) donations else 0)\<rparr>"
      using c that(1) by blast
    ultimately show ?thesis by simp
  qed
  ultimately show ?thesis using r l by blast
qed

theorem fixDonationRoundingErrors_first_of_token_takes_shortfall_witness:
  "tokenSum ''DAI'' cart_thirds = WAD - 1 \<and>
   (\<exists>fixed. fixDonationRoundingErrors cart_thirds = Inr fixed \<and>
      map ratio fixed =
        [333333333333333334, 1000000000000000000, 333333333333333333, 333333333333333333])"
proof -
  have pre: "\<forall>d\<in>set cart_thirds. tokenSum (token d) cart_thirds \<le> WAD"
    by (simp add: cart_thirds_def tokenSum_def WAD_def)
  from fixDonationRoundingErrors_first_of_token_takes_shortfall [OF pre] obtain fixed where
    r: "fixDonationRoundingErrors cart_thirds = Inr fixed" and
    l: "length fixed = length cart_thirds" and
    a: "\<forall>j<length cart_thirds.
              (\<forall>k<j. token (cart_thirds ! k) \<noteq> token (cart_thirds ! j)) \<longrightarrow>
                fixed ! j = (cart_thirds ! j)\<lparr>ratio := ratio (cart_thirds ! j) +
                  (WAD - tokenSum (token (cart_thirds ! j)) cart_thirds)\<rparr>" and
    b: "\<forall>j<length cart_thirds.
              (\<exists>k<j. token (cart_thirds ! k) = token (cart_thirds ! j)) \<longrightarrow>
                fixed ! j = cart_thirds ! j"
    by blast
  have len: "length cart_thirds = 4" by (simp add: cart_thirds_def)
  have "ratio (fixed ! 0) = 333333333333333334"
    using a [rule_format, of 0] by (simp add: cart_thirds_def tokenSum_def WAD_def)
  moreover have "ratio (fixed ! 1) = 1000000000000000000"
    using a [rule_format, of 1] by (simp add: cart_thirds_def tokenSum_def WAD_def)
  moreover have "ratio (fixed ! 2) = 333333333333333333"
  proof -
    have "\<exists>k<2. token (cart_thirds ! k) = token (cart_thirds ! 2)"
      by (rule exI [of _ 0]) (simp add: cart_thirds_def)
    then show ?thesis using b [rule_format, of 2] by (simp add: cart_thirds_def)
  qed
  moreover have "ratio (fixed ! 3) = 333333333333333333"
  proof -
    have "\<exists>k<3. token (cart_thirds ! k) = token (cart_thirds ! 3)"
      by (rule exI [of _ 0]) (simp add: cart_thirds_def)
    then show ?thesis using b [rule_format, of 3] by (simp add: cart_thirds_def)
  qed
  ultimately have "map ratio fixed =
      [333333333333333334, 1000000000000000000, 333333333333333333, 333333333333333333]"
    using l len by (simp add: list_eq_iff_nth_eq less_Suc_eq numeral_nat)
  with r show ?thesis
    by (auto simp: cart_thirds_def tokenSum_def WAD_def)
qed

text \<open>
  C3. \<open>fixDonationRoundingErrors\<close> is idempotent under the precondition: the array it
  returns has no shortfall left for any of its tokens, and running the function on that
  array returns the same array.
\<close>

theorem fixDonationRoundingErrors_idempotent:
  assumes "\<forall>d\<in>set donations. tokenSum (token d) donations \<le> WAD"
  shows "\<exists>fixed. fixDonationRoundingErrors donations = Inr fixed \<and>
           (\<forall>d\<in>set fixed. WAD - tokenSum (token d) fixed = 0) \<and>
           fixDonationRoundingErrors fixed = Inr fixed"
proof -
  from fixDonationRoundingErrors_returns [OF assms] obtain fixed where
    r: "fixDonationRoundingErrors donations = Inr fixed" and
    l: "length fixed = length donations" and
    s: "\<forall>j<length donations. tokenSum (token (donations ! j)) fixed = WAD" and
    c: "\<forall>j<length donations. fixed ! j = (donations ! j)\<lparr>ratio := ratio (donations ! j) +
               (if \<forall>k<j. token (donations ! k) \<noteq> token (donations ! j)
                then WAD - tokenSum (token (donations ! j)) donations else 0)\<rparr>"
    by blast
  have t: "\<forall>j<length donations. token (fixed ! j) = token (donations ! j)"
    using c by simp
  have whole: "tokenSum (token d) fixed = WAD" if "d \<in> set fixed" for d
  proof -
    from that obtain j where "j < length fixed" "d = fixed ! j"
      by (auto simp: in_set_conv_nth)
    then show ?thesis using s t l by simp
  qed
  then have pre2: "\<forall>d\<in>set fixed. tokenSum (token d) fixed \<le> WAD"
    by simp
  from fixDonationRoundingErrors_returns [OF pre2] obtain again where
    r2: "fixDonationRoundingErrors fixed = Inr again" and
    l2: "length again = length fixed" and
    c2: "\<forall>j<length fixed. again ! j = (fixed ! j)\<lparr>ratio := ratio (fixed ! j) +
               (if \<forall>k<j. token (fixed ! k) \<noteq> token (fixed ! j)
                then WAD - tokenSum (token (fixed ! j)) fixed else 0)\<rparr>"
    by blast
  have "again ! j = fixed ! j" if "j < length fixed" for j
  proof -
    have "tokenSum (token (fixed ! j)) fixed = WAD"
      using whole that by simp
    then show ?thesis using c2 that by simp
  qed
  then have "again = fixed"
    using l2 by (simp add: list_eq_iff_nth_eq)
  then show ?thesis using r r2 whole by auto
qed

theorem fixDonationRoundingErrors_idempotent_witness:
  "tokenSum ''DAI'' cart_thirds = WAD - 1 \<and> tokenSum ''WETH'' cart_thirds = WAD \<and>
   (\<exists>fixed. fixDonationRoundingErrors cart_thirds = Inr fixed \<and>
      fixDonationRoundingErrors fixed = Inr fixed)"
proof -
  have pre: "\<forall>d\<in>set cart_thirds. tokenSum (token d) cart_thirds \<le> WAD"
    by (simp add: cart_thirds_def tokenSum_def WAD_def)
  from fixDonationRoundingErrors_idempotent [OF pre] obtain fixed where
    "fixDonationRoundingErrors cart_thirds = Inr fixed"
    "fixDonationRoundingErrors fixed = Inr fixed"
    by blast
  then show ?thesis
    by (auto simp: cart_thirds_def tokenSum_def WAD_def)
qed

text \<open>
  C4. \<open>fixDonationRoundingErrors\<close> throws \<^verbatim>\<open>Error('Ratios sum to greater than 100%')\<close>
  exactly when the input ratios of some donation's token sum to more than \<open>WAD\<close>; it
  throws nothing else, so an input in which no token exceeds \<open>WAD\<close> always returns.
\<close>

theorem fixDonationRoundingErrors_throws_iff:
  "(fixDonationRoundingErrors donations = Inl (Error ''Ratios sum to greater than 100%'')
      \<longleftrightarrow> (\<exists>d\<in>set donations. tokenSum (token d) donations > WAD)) \<and>
   ((\<forall>d\<in>set donations. tokenSum (token d) donations \<le> WAD)
      \<longrightarrow> (\<exists>fixed. fixDonationRoundingErrors donations = Inr fixed)) \<and>
   (\<forall>e. fixDonationRoundingErrors donations = Inl e
      \<longrightarrow> e = Error ''Ratios sum to greater than 100%'')"
proof -
  have over: "fixDonationRoundingErrors donations = Inl (Error ''Ratios sum to greater than 100%'')"
    if "\<exists>d\<in>set donations. tokenSum (token d) donations > WAD"
  proof -
    from that obtain j where "j < length donations"
      "tokenSum (token (donations ! j)) donations > WAD"
      by (auto simp: in_set_conv_nth)
    then show ?thesis
      unfolding fixDonationRoundingErrors_def
      using forEach_throws [of 0 j donations] by simp
  qed
  have within: "\<exists>fixed. fixDonationRoundingErrors donations = Inr fixed"
    if "\<forall>d\<in>set donations. tokenSum (token d) donations \<le> WAD"
    using fixDonationRoundingErrors_returns [OF that] by blast
  have cases: "(\<exists>d\<in>set donations. tokenSum (token d) donations > WAD) \<or>
               (\<forall>d\<in>set donations. tokenSum (token d) donations \<le> WAD)"
    by (meson not_le)
  show ?thesis
  proof (intro conjI)
    show "fixDonationRoundingErrors donations = Inl (Error ''Ratios sum to greater than 100%'')
            \<longleftrightarrow> (\<exists>d\<in>set donations. tokenSum (token d) donations > WAD)"
      using over within cases by fastforce
    show "(\<forall>d\<in>set donations. tokenSum (token d) donations \<le> WAD)
            \<longrightarrow> (\<exists>fixed. fixDonationRoundingErrors donations = Inr fixed)"
      using within by blast
    show "\<forall>e. fixDonationRoundingErrors donations = Inl e
            \<longrightarrow> e = Error ''Ratios sum to greater than 100%''"
      using over within cases by fastforce
  qed
qed

theorem fixDonationRoundingErrors_throws_iff_witness:
  "tokenSum ''DAI'' cart_over = 1200000000000000000 \<and>
   fixDonationRoundingErrors cart_over = Inl (Error ''Ratios sum to greater than 100%'') \<and>
   tokenSum ''DAI'' cart_thirds = 999999999999999999 \<and>
   (\<exists>fixed. fixDonationRoundingErrors cart_thirds = Inr fixed)"
proof -
  have "\<exists>d\<in>set cart_over. tokenSum (token d) cart_over > WAD"
    by (simp add: cart_over_def tokenSum_def WAD_def)
  then have a: "fixDonationRoundingErrors cart_over = Inl (Error ''Ratios sum to greater than 100%'')"
    using fixDonationRoundingErrors_throws_iff [of cart_over] by blast
  have "\<forall>d\<in>set cart_thirds. tokenSum (token d) cart_thirds \<le> WAD"
    by (simp add: cart_thirds_def tokenSum_def WAD_def)
  then have b: "\<exists>fixed. fixDonationRoundingErrors cart_thirds = Inr fixed"
    using fixDonationRoundingErrors_throws_iff [of cart_thirds] by blast
  have "tokenSum ''DAI'' cart_over = 1200000000000000000"
    by (simp add: cart_over_def tokenSum_def)
  moreover have "tokenSum ''DAI'' cart_thirds = 999999999999999999"
    by (simp add: cart_thirds_def tokenSum_def)
  ultimately show ?thesis using a b by blast
qed

section \<open>Rounding to a double\<close>

declare bitLength.simps [simp del]

lemma bitLength_bounds:
  assumes "0 < n"
  shows "\<exists>k. bitLength n = int (Suc k) \<and> 2 ^ k \<le> n \<and> n < 2 ^ Suc k"
  using assms
proof (induction n rule: bitLength.induct)
  case (1 n)
  show ?case
  proof (cases "n div 2 \<le> 0")
    case True
    with "1.prems" have "n = 1" by linarith
    then have "bitLength n = int (Suc 0) \<and> 2 ^ 0 \<le> n \<and> n < 2 ^ Suc 0"
      by (simp add: bitLength.simps [of 1] bitLength.simps [of 0])
    then show ?thesis by blast
  next
    case False
    then have pos: "0 < n div 2" by simp
    from "1.IH" "1.prems" pos obtain k where
      k: "bitLength (n div 2) = int (Suc k)" "2 ^ k \<le> n div 2" "n div 2 < 2 ^ Suc k"
      by auto
    have "bitLength n = int (Suc (Suc k))"
      using "1.prems" k(1) by (simp add: bitLength.simps [of n])
    moreover have "2 ^ Suc k \<le> n"
    proof -
      have "2 * (n div 2) \<le> n" by linarith
      moreover have "(2::int) ^ Suc k = 2 * 2 ^ k" by simp
      ultimately show ?thesis using k(2) by linarith
    qed
    moreover have "n < 2 ^ Suc (Suc k)"
    proof -
      have "n < 2 * (n div 2) + 2" by linarith
      moreover have "(2::int) ^ Suc (Suc k) = 2 * 2 ^ Suc k" by simp
      ultimately show ?thesis using k(3) by linarith
    qed
    ultimately show ?thesis by blast
  qed
qed

lemma binaryExponent_bounds:
  assumes "0 < a"
  shows "2 powi (binaryExponent a) \<le> a \<and> a < 2 powi (binaryExponent a + 1)"
proof (cases "1 \<le> a")
  case True
  then have "0 < \<lfloor>a\<rfloor>" by simp
  from bitLength_bounds [OF this] obtain k where
    k: "bitLength \<lfloor>a\<rfloor> = int (Suc k)" "2 ^ k \<le> \<lfloor>a\<rfloor>" "\<lfloor>a\<rfloor> < 2 ^ Suc k"
    by blast
  have e: "binaryExponent a = int k"
    using True k(1) by (simp add: binaryExponent_def)
  have "(2::real) ^ k \<le> of_int \<lfloor>a\<rfloor>"
    using k(2) by (metis of_int_le_iff of_int_numeral of_int_power)
  then have lo: "(2::real) ^ k \<le> a" by linarith
  have "\<lfloor>a\<rfloor> + 1 \<le> 2 ^ Suc k" using k(3) by simp
  then have "of_int (\<lfloor>a\<rfloor> + 1) \<le> (2::real) ^ Suc k"
    by (metis of_int_le_iff of_int_numeral of_int_power)
  then have hi: "a < (2::real) ^ Suc k" by linarith
  have "int k + 1 = int (Suc k)" by simp
  then have "(2::real) powi (int k + 1) = 2 ^ Suc k"
    by (metis power_int_of_nat)
  with lo hi e show ?thesis by simp
next
  case False
  with assms have z: "1 < 1 / a" by simp
  define m where "m = \<lceil>1 / a\<rceil> - 1"
  have mlt: "of_int m < 1 / a" and mge: "1 / a \<le> of_int m + 1"
    unfolding m_def by linarith+
  have "0 < m" using z unfolding m_def by linarith
  from bitLength_bounds [OF this] obtain k where
    k: "bitLength m = int (Suc k)" "2 ^ k \<le> m" "m < 2 ^ Suc k"
    by blast
  have e: "binaryExponent a = - int (Suc k)"
    using False k(1) by (simp add: binaryExponent_def m_def)
  have "(2::real) ^ k \<le> of_int m"
    using k(2) by (metis of_int_le_iff of_int_numeral of_int_power)
  then have "(2::real) ^ k < 1 / a" using mlt by linarith
  then have hi: "a < 1 / 2 ^ k"
    using assms by (simp add: field_simps)
  have "m + 1 \<le> 2 ^ Suc k" using k(3) by simp
  then have "of_int (m + 1) \<le> (2::real) ^ Suc k"
    by (metis of_int_le_iff of_int_numeral of_int_power)
  then have "1 / a \<le> (2::real) ^ Suc k" using mge by simp
  then have lo: "1 / 2 ^ Suc k \<le> a"
    using assms by (simp add: field_simps)
  have "(2::real) powi (- int (Suc k)) = inverse (2 powi int (Suc k))"
    by (rule power_int_minus)
  then have p1: "(2::real) powi (- int (Suc k)) = 1 / 2 ^ Suc k"
    by (simp only: power_int_of_nat inverse_eq_divide)
  have "(2::real) powi (- int k) = inverse (2 powi int k)"
    by (rule power_int_minus)
  moreover have "- int (Suc k) + 1 = - int k" by simp
  ultimately have p2: "(2::real) powi (- int (Suc k) + 1) = 1 / 2 ^ k"
    by (simp only: power_int_of_nat inverse_eq_divide)
  show ?thesis
    unfolding e p1 p2 using lo hi by simp
qed

lemma two_powi_less_imp_less:
  assumes "(2::real) powi m < 2 powi n"
  shows "m < n"
proof (rule ccontr)
  assume "\<not> m < n"
  then have "n \<le> m" by simp
  then have "(2::real) powi n \<le> 2 powi m"
    by (rule power_int_increasing) simp
  with assms show False by simp
qed

lemma two_powi_le_imp_le:
  assumes "(2::real) powi m \<le> 2 powi n"
  shows "m \<le> n"
proof (rule ccontr)
  assume "\<not> m \<le> n"
  then have "n < m" by simp
  then have "(2::real) powi n < 2 powi m"
    by (rule power_int_strict_increasing) simp
  with assms show False by simp
qed

lemma roundTiesToEven_error: "\<bar>of_int (roundTiesToEven m) - m\<bar> \<le> 1 / 2"
  unfolding roundTiesToEven_def Let_def by (auto; linarith)

lemma roundToDouble_zero [simp]: "roundToDouble 0 = Fin 0"
  by (simp add: roundToDouble_def)


lemma binaryExponent_unique:
  assumes "0 < a" and "2 powi e \<le> a" and "a < 2 powi (e + 1)"
  shows "binaryExponent a = e"
proof -
  from binaryExponent_bounds [OF assms(1)] have
    lo: "2 powi (binaryExponent a) \<le> a" and hi: "a < 2 powi (binaryExponent a + 1)"
    by simp_all
  have "(2::real) powi (binaryExponent a) < 2 powi (e + 1)"
    using lo assms(3) by linarith
  then have "binaryExponent a < e + 1"
    by (rule two_powi_less_imp_less)
  moreover have "(2::real) powi e < 2 powi (binaryExponent a + 1)"
    using hi assms(2) by linarith
  then have "e < binaryExponent a + 1"
    by (rule two_powi_less_imp_less)
  ultimately show ?thesis by simp
qed

lemma roundTiesToEven_of_int [simp]: "roundTiesToEven (of_int k) = k"
  by (simp add: roundTiesToEven_def)

lemma roundTiesToEven_numeral [simp]: "roundTiesToEven (numeral k) = numeral k"
  using roundTiesToEven_of_int [of "numeral k"] by simp


text \<open>The rounded value, and its distance from the exact one, for a given exponent.\<close>

lemma roundToDouble_normal:
  assumes "2 powi e \<le> \<bar>y\<bar>" and "\<bar>y\<bar> < 2 powi (e + 1)" and "- 1022 \<le> e"
    and "\<bar>y\<bar> \<le> 2 ^ 1023"
  shows "roundToDouble y = Fin (of_int (roundTiesToEven (y / 2 powi (e - 52))) * 2 powi (e - 52))"
    and "\<bar>of_int (roundTiesToEven (y / 2 powi (e - 52))) * 2 powi (e - 52) - y\<bar> \<le> \<bar>y\<bar> / 2 ^ 53"
proof -
  have "0 < (2::real) powi e" by (rule zero_less_power_int) simp
  then have ypos: "0 < \<bar>y\<bar>" using assms(1) by linarith
  have e: "binaryExponent \<bar>y\<bar> = e"
    using ypos assms(1,2) by (rule binaryExponent_unique)
  define q :: real where "q = 2 powi (e - 52)"
  have qpos: "0 < q" by (simp add: q_def)
  define n where "n = roundTiesToEven (y / q)"
  define r where "r = of_int n * q"
  have "\<bar>of_int n - y / q\<bar> \<le> 1 / 2"
    unfolding n_def by (rule roundTiesToEven_error)
  then have "\<bar>of_int n - y / q\<bar> * q \<le> 1 / 2 * q"
    using qpos by (simp add: mult_right_mono)
  moreover have "(of_int n - y / q) * q = r - y"
    using qpos by (simp add: r_def left_diff_distrib)
  then have "\<bar>r - y\<bar> = \<bar>of_int n - y / q\<bar> * \<bar>q\<bar>"
    by (simp only: abs_mult [symmetric])
  ultimately have err: "\<bar>r - y\<bar> \<le> q / 2"
    using qpos by simp
  have "q = 2 powi e / 2 ^ 52"
    by (simp add: q_def power_int_diff)
  then have q2: "q / 2 = 2 powi e / 2 ^ 53" by simp
  have "2 powi e / 2 ^ 53 \<le> \<bar>y\<bar> / 2 ^ 53"
    using assms(1) by (rule divide_right_mono) simp
  then have rel: "\<bar>r - y\<bar> \<le> \<bar>y\<bar> / 2 ^ 53"
    using err unfolding q2 by linarith
  have "\<bar>y\<bar> / 2 ^ 53 \<le> 2 ^ 1023 / 2 ^ 53"
    using assms(4) by (rule divide_right_mono) simp
  moreover have "\<bar>r\<bar> \<le> \<bar>y\<bar> + \<bar>y\<bar> / 2 ^ 53"
    using rel by linarith
  moreover have "2 ^ 1023 + 2 ^ 1023 / 2 ^ 53 < (2::real) ^ 1024"
    by simp
  ultimately have fin: "\<bar>r\<bar> < 2 ^ 1024"
    using assms(4) by linarith
  have "roundToDouble y = Fin r"
    using ypos assms(3) fin
    by (auto simp: roundToDouble_def Let_def e max_def q_def [symmetric]
        n_def [symmetric] r_def [symmetric])
  then show "roundToDouble y = Fin (of_int (roundTiesToEven (y / 2 powi (e - 52))) * 2 powi (e - 52))"
    by (simp add: r_def n_def q_def)
  from rel show "\<bar>of_int (roundTiesToEven (y / 2 powi (e - 52))) * 2 powi (e - 52) - y\<bar> \<le> \<bar>y\<bar> / 2 ^ 53"
    by (simp add: r_def n_def q_def)
qed



text \<open>Every integer below \<open>2 ^ 53\<close> in magnitude is a double.\<close>

lemma roundToDouble_of_int:
  assumes "\<bar>n\<bar> < 2 ^ 53"
  shows "roundToDouble (of_int n) = Fin (of_int n)"
proof (cases "n = 0")
  case True
  then show ?thesis by simp
next
  case False
  define a :: real where "a = \<bar>of_int n\<bar>"
  have a1: "1 \<le> a" using False by (simp add: a_def)
  have "real_of_int \<bar>n\<bar> < of_int (2 ^ 53)"
    using assms by (simp only: of_int_less_iff)
  then have a53: "a < 2 ^ 53" by (simp add: a_def)
  define e where "e = binaryExponent a"
  from binaryExponent_bounds [of a] a1 have
    lo: "2 powi e \<le> a" and hi: "a < 2 powi (e + 1)"
    by (simp_all add: e_def)
  have "(2::real) powi 0 < 2 powi (e + 1)" using a1 hi by simp
  then have "0 < e + 1" by (rule two_powi_less_imp_less)
  then have e0: "0 \<le> e" by simp
  have "(2::real) powi e < 2 powi 53" using lo a53 by simp
  then have e53: "e < 53" by (rule two_powi_less_imp_less)
  define k where "k = nat (52 - e)"
  have ek: "e - 52 = - int k" using e53 by (simp add: k_def)
  have q: "(2::real) powi (e - 52) = 1 / 2 ^ k"
    unfolding ek by (simp add: power_int_minus inverse_eq_divide)
  have quot: "of_int n / (2::real) powi (e - 52) = of_int (n * 2 ^ k)"
    unfolding q by simp
  have "\<bar>real_of_int n\<bar> \<le> 2 ^ 1023"
    using a53 by (simp add: a_def)
  from roundToDouble_normal(1) [of e "of_int n", OF _ _ _ this] lo hi e0
  have "roundToDouble (of_int n) =
          Fin (of_int (roundTiesToEven (of_int n / 2 powi (e - 52))) * 2 powi (e - 52))"
    by (simp add: a_def)
  then show ?thesis
    unfolding quot roundTiesToEven_of_int unfolding q by simp
qed

lemma roundToDouble_small_integers:
  "roundToDouble 5 = Fin 5" "roundToDouble 12 = Fin 12" "roundToDouble 1000 = Fin 1000"
  using roundToDouble_of_int [of 5] roundToDouble_of_int [of 12] roundToDouble_of_int [of 1000]
  by simp_all





section \<open>The token value converter: \<^verbatim>\<open>getConvertedAmount\<close>\<close>







text \<open>
  C6 as the specification states it: a conversion for a token with no entry in the quotes
  table gives the caller an error and no number. The code gives the caller a number:
  \<open>''GTC''\<close> has no quote in \<open>quotes_two\<close>, and 5 GTC converts to 0 in direction 1 and
  to \<^verbatim>\<open>Infinity\<close> in direction -1.
\<close>

theorem getConvertedAmount_missing_quote_returns_number:
  "quotes_two ''GTC'' = None \<and>
   getConvertedAmount quotes_two (Fin 5) ''GTC'' (Fin 1) = Fin 0 \<and>
   getConvertedAmount quotes_two (Fin 5) ''GTC'' (Fin (- 1)) = PosInf"
  by (simp add: quotes_two_def getConvertedAmount_def)

text \<open>
  C6, amended. For a token with no entry in the quotes table \<open>getConvertedAmount\<close>
  raises nothing: it takes the rate to be 0 and returns a number, which is the amount
  times 0 in direction 1 (0 for every finite amount) and the amount times \<^verbatim>\<open>1 / 0\<close> in
  any other direction (\<^verbatim>\<open>Infinity\<close>, \<^verbatim>\<open>-Infinity\<close> or \<^verbatim>\<open>NaN\<close> by the sign of the amount).
\<close>

theorem getConvertedAmount_missing_quote_defaults_to_zero:
  assumes "quotes tokenAddress = None"
  shows "getConvertedAmount quotes amount' tokenAddress (Fin 1) = number_mul amount' (Fin 0) \<and>
         getConvertedAmount quotes (Fin x) tokenAddress (Fin 1) = Fin 0 \<and>
         (direction \<noteq> Fin 1 \<longrightarrow>
            getConvertedAmount quotes amount' tokenAddress direction = number_mul amount' PosInf \<and>
            getConvertedAmount quotes (Fin x) tokenAddress direction =
              (if x = 0 then NaN else if x > 0 then PosInf else NegInf))"
  using assms by (simp add: getConvertedAmount_def)

theorem getConvertedAmount_missing_quote_defaults_to_zero_witness:
  "Map.empty ''DAI'' = (None :: number option) \<and>
   getConvertedAmount Map.empty (Fin 12) ''DAI'' (Fin 1) = Fin 0 \<and>
   getConvertedAmount Map.empty (Fin (- 12)) ''DAI'' (Fin 2) = NegInf \<and>
   getConvertedAmount Map.empty (Fin 0) ''DAI'' (Fin 2) = NaN"
proof -
  have q: "Map.empty ''DAI'' = (None :: number option)"
    by simp
  have d: "Fin 2 \<noteq> Fin 1"
    by simp
  from getConvertedAmount_missing_quote_defaults_to_zero [where quotes = Map.empty
      and tokenAddress = "''DAI''" and amount' = "Fin 12" and x = 12 and direction = "Fin 2"] q
  have a: "getConvertedAmount Map.empty (Fin 12) ''DAI'' (Fin 1) = Fin 0"
    by simp
  from getConvertedAmount_missing_quote_defaults_to_zero [where quotes = Map.empty
      and tokenAddress = "''DAI''" and amount' = "Fin (- 12)" and x = "- 12" and direction = "Fin 2"] q d
  have b: "getConvertedAmount Map.empty (Fin (- 12)) ''DAI'' (Fin 2) = NegInf"
    by simp
  from getConvertedAmount_missing_quote_defaults_to_zero [where quotes = Map.empty
      and tokenAddress = "''DAI''" and amount' = "Fin 0" and x = 0 and direction = "Fin 2"] q d
  have c: "getConvertedAmount Map.empty (Fin 0) ''DAI'' (Fin 2) = NaN"
    by simp
  show ?thesis using a b c by simp
qed

section \<open>Round status: \<^verbatim>\<open>getGrantRound\<close>\<close>

lemma toNumber_safe:
  assumes "\<bar>t\<bar> < 2 ^ 53"
  shows "toNumber t = Inr (Fin (of_int t))"
  using assms by (simp add: toNumber_def)

lemma toNumber_overflow:
  assumes "2 ^ 53 \<le> \<bar>t\<bar>"
  shows "toNumber t = Inl (NumericFault ''overflow'')"
  using assms by (simp add: toNumber_def)

text \<open>
  C7 as the specification states it: for every \<open>startTime\<close>, \<open>endTime\<close> and \<open>now\<close> the
  status is \<open>''Active''\<close> when \<open>startTime \<le> now < endTime\<close>. With \<open>now = 1000\<close>, a round
  that started at 900 and ends at \<open>2 ^ 53\<close> gets no status: the conversion of its end time
  throws.
\<close>

theorem getGrantRound_status_overflows:
  "number_div (Fin 1000000) (Fin 1000) = Fin 1000 \<and>
   real_of_int 900 \<le> 1000 \<and> 1000 < real_of_int (2 ^ 53) \<and>
   getGrantRound_status 1000000 900 (2 ^ 53) = Inl (NumericFault ''overflow'')"
  by (simp add: getGrantRound_status_def toNumber_def roundToDouble_small_integers)

text \<open>
  C7, amended. The status is a function of the clock and of the interval only. With
  \<open>now\<close> the number that \<^verbatim>\<open>Date.now() / 1000\<close> computes, and for a \<open>startTime\<close> and an
  \<open>endTime\<close> below \<open>2 ^ 53\<close> in magnitude, it is \<open>''Active''\<close> exactly when
  \<open>startTime \<le> now < endTime\<close>, \<open>''Upcoming''\<close> exactly when \<open>now < startTime\<close>, and
  \<open>''Completed''\<close> exactly in the remaining case, in which \<open>now \<ge> endTime\<close>. A
  \<open>startTime\<close> of \<open>2 ^ 53\<close> or more in magnitude makes the computation throw the overflow
  fault of \<^verbatim>\<open>toNumber\<close>, and so does such an \<open>endTime\<close> once \<open>now \<ge> startTime\<close>;
  before the start it is not converted and the status is \<open>''Upcoming''\<close>.
\<close>

theorem getGrantRound_status_by_interval:
  fixes dateNow now :: real and startTime endTime :: int
  assumes "number_div (Fin dateNow) (Fin 1000) = Fin now"
  shows "(\<bar>startTime\<bar> < 2 ^ 53 \<and> \<bar>endTime\<bar> < 2 ^ 53 \<longrightarrow>
            (\<exists>st. getGrantRound_status dateNow startTime endTime = Inr st \<and>
               (st = ''Active'' \<longleftrightarrow> real_of_int startTime \<le> now \<and> now < real_of_int endTime) \<and>
               (st = ''Upcoming'' \<longleftrightarrow> now < real_of_int startTime) \<and>
               (st = ''Completed'' \<longleftrightarrow>
                  \<not> (real_of_int startTime \<le> now \<and> now < real_of_int endTime) \<and>
                  \<not> now < real_of_int startTime) \<and>
               (st = ''Completed'' \<longrightarrow> real_of_int endTime \<le> now) \<and>
               (startTime \<le> endTime \<longrightarrow>
                  (st = ''Completed'' \<longleftrightarrow> real_of_int endTime \<le> now)))) \<and>
         (2 ^ 53 \<le> \<bar>startTime\<bar> \<longrightarrow>
            getGrantRound_status dateNow startTime endTime = Inl (NumericFault ''overflow'')) \<and>
         (\<bar>startTime\<bar> < 2 ^ 53 \<and> 2 ^ 53 \<le> \<bar>endTime\<bar> \<longrightarrow>
            getGrantRound_status dateNow startTime endTime =
              (if real_of_int startTime \<le> now then Inl (NumericFault ''overflow'')
               else Inr ''Upcoming''))"
proof -
  have n: "roundToDouble (dateNow / 1000) = Fin now"
    using assms by simp
  have bounded: "getGrantRound_status dateNow startTime endTime =
        Inr (if real_of_int startTime \<le> now \<and> now < real_of_int endTime then ''Active''
             else if now < real_of_int startTime then ''Upcoming'' else ''Completed'')"
    if "\<bar>startTime\<bar> < 2 ^ 53" "\<bar>endTime\<bar> < 2 ^ 53"
    using that by (simp add: getGrantRound_status_def Let_def n toNumber_safe)
  have early: "getGrantRound_status dateNow startTime endTime = Inl (NumericFault ''overflow'')"
    if "2 ^ 53 \<le> \<bar>startTime\<bar>"
    using that by (simp add: getGrantRound_status_def Let_def toNumber_overflow)
  have late: "getGrantRound_status dateNow startTime endTime =
          (if real_of_int startTime \<le> now then Inl (NumericFault ''overflow'')
           else Inr ''Upcoming'')"
    if "\<bar>startTime\<bar> < 2 ^ 53" "2 ^ 53 \<le> \<bar>endTime\<bar>"
    using that by (simp add: getGrantRound_status_def Let_def n toNumber_safe toNumber_overflow)
  show ?thesis
  proof (intro conjI impI)
    assume b: "\<bar>startTime\<bar> < 2 ^ 53 \<and> \<bar>endTime\<bar> < 2 ^ 53"
    show "\<exists>st. getGrantRound_status dateNow startTime endTime = Inr st \<and>
          (st = ''Active'' \<longleftrightarrow> real_of_int startTime \<le> now \<and> now < real_of_int endTime) \<and>
          (st = ''Upcoming'' \<longleftrightarrow> now < real_of_int startTime) \<and>
          (st = ''Completed'' \<longleftrightarrow>
             \<not> (real_of_int startTime \<le> now \<and> now < real_of_int endTime) \<and>
             \<not> now < real_of_int startTime) \<and>
          (st = ''Completed'' \<longrightarrow> real_of_int endTime \<le> now) \<and>
          (startTime \<le> endTime \<longrightarrow> (st = ''Completed'' \<longleftrightarrow> real_of_int endTime \<le> now))"
      using bounded b by auto
  next
    assume "2 ^ 53 \<le> \<bar>startTime\<bar>"
    then show "getGrantRound_status dateNow startTime endTime = Inl (NumericFault ''overflow'')"
      by (rule early)
  next
    assume "\<bar>startTime\<bar> < 2 ^ 53 \<and> 2 ^ 53 \<le> \<bar>endTime\<bar>"
    then show "getGrantRound_status dateNow startTime endTime =
          (if real_of_int startTime \<le> now then Inl (NumericFault ''overflow'')
           else Inr ''Upcoming'')"
      using late by blast
  qed
qed

theorem getGrantRound_status_by_interval_witness:
  "number_div (Fin 1000000) (Fin 1000) = Fin 1000 \<and>
   getGrantRound_status 1000000 900 1100 = Inr ''Active'' \<and>
   getGrantRound_status 1000000 800 999 = Inr ''Completed'' \<and>
   getGrantRound_status 1000000 1001 1100 = Inr ''Upcoming'' \<and>
   getGrantRound_status 1000000 1001 (2 ^ 53) = Inr ''Upcoming'' \<and>
   getGrantRound_status 1000000 (2 ^ 53) 1100 = Inl (NumericFault ''overflow'')"
proof -
  have n: "number_div (Fin 1000000) (Fin 1000) = Fin 1000"
    by (simp add: roundToDouble_small_integers)
  have "getGrantRound_status 1000000 900 1100 = Inr ''Active''"
    using getGrantRound_status_by_interval [where startTime = 900 and endTime = 1100, OF n] by auto
  moreover have "getGrantRound_status 1000000 800 999 = Inr ''Completed''"
    using getGrantRound_status_by_interval [where startTime = 800 and endTime = 999, OF n] by auto
  moreover have "getGrantRound_status 1000000 1001 1100 = Inr ''Upcoming''"
    using getGrantRound_status_by_interval [where startTime = 1001 and endTime = 1100, OF n] by auto
  moreover have "getGrantRound_status 1000000 1001 (2 ^ 53) = Inr ''Upcoming''"
    using getGrantRound_status_by_interval [where startTime = 1001 and endTime = "2 ^ 53", OF n] by simp
  moreover have "getGrantRound_status 1000000 (2 ^ 53) 1100 = Inl (NumericFault ''overflow'')"
    using getGrantRound_status_by_interval [where startTime = "2 ^ 53" and endTime = 1100, OF n] by simp
  ultimately show ?thesis using n by simp
qed

section \<open>The aggregator: \<^verbatim>\<open>getGrantsGrantRoundDetails\<close>\<close>

lemmas aggregator_defs =
  getGrantsGrantRoundDetails_def roundDetails_def getPredictionsForGrantInRound_def
  formattedPrediction_def

lemmas aggregator_examples =
  formatNumber_def filterContributionsByGrantId_def filterContributionsByGrantRound_def
  round_A_def metadata_AB_def clr_only_A_def contributions_A_def
  prediction_grant2_def DAI_def

lemma arrayMap_returns:
  assumes "arrayMap f xs = Inr ys"
  shows "length ys = length xs \<and> (\<forall>i<length xs. f (xs ! i) = Inr (ys ! i))"
  using assms
proof (induction xs arbitrary: ys)
  case Nil
  then show ?case by simp
next
  case (Cons x xs)
  from Cons.prems obtain y rest where
    y: "f x = Inr y" and rest: "arrayMap f xs = Inr rest" and ys: "ys = y # rest"
    by (auto split: sum.splits)
  from Cons.IH [OF rest] y ys show ?case
    by (auto simp: nth_Cons split: nat.splits)
qed

lemma arrayMap_throws:
  assumes "x \<in> set xs" and "f x = Inl e"
  shows "\<exists>e'. arrayMap f xs = Inl e' \<and> (\<exists>y\<in>set xs. f y = Inl e')"
  using assms
proof (induction xs)
  case Nil
  then show ?case by simp
next
  case (Cons a xs)
  show ?case
  proof (cases "f a")
    case (Inl e')
    then show ?thesis by auto
  next
    case (Inr b)
    with Cons.prems have "x \<in> set xs" by auto
    from Cons.IH [OF this Cons.prems(2)] Inr show ?thesis
      by (auto split: sum.splits)
  qed
qed

lemma formattedPrediction_TypeError:
  assumes "formattedPrediction format p i field fieldName = Inl e"
  shows "e = TypeError fieldName"
  using assms by (auto simp: formattedPrediction_def split: option.splits if_splits)

lemma roundDetails_TypeError:
  assumes "roundDetails format byRound g roundsMetadata grantRoundsCLRData cs r = Inl e"
  shows "\<exists>p. e = TypeError p"
  using assms
  unfolding roundDetails_def getPredictionsForGrantInRound_def Let_def
  by (auto split: option.splits sum.splits dest: formattedPrediction_TypeError)

lemma roundDetails_without_CLR_entry:
  assumes "grantRoundsCLRData (GrantRound.address r) = None"
  shows "roundDetails format byRound g roundsMetadata grantRoundsCLRData cs r =
           Inl (TypeError ''predictions'')"
  using assms by (simp add: roundDetails_def getPredictionsForGrantInRound_def)

lemma formattedPrediction_at:
  assumes "i < length (GrantPrediction.predictions gp)"
  shows "formattedPrediction format (Some gp) i field fieldName =
           Inr (Some (format (Number (field (GrantPrediction.predictions gp ! i))) 2))"
  using assms by (simp add: formattedPrediction_def)

lemma roundDetails_fields:
  assumes "roundDetails format byRound g roundsMetadata grantRoundsCLRData cs r = Inr d"
    and "getPredictionsForGrantInRound g (grantRoundsCLRData (GrantRound.address r)) = Inr (Some gp)"
    and "4 \<le> length (GrantPrediction.predictions gp)"
  shows "GrantsRoundDetails.address d = GrantRound.address r \<and>
         matching d = Some (format (Number (predictedGrantMatch (GrantPrediction.predictions gp ! 0))) 2) \<and>
         prediction1 d = Some (format (Number (predictionDiff (GrantPrediction.predictions gp ! 1))) 2) \<and>
         prediction10 d = Some (format (Number (predictionDiff (GrantPrediction.predictions gp ! 2))) 2) \<and>
         prediction100 d = Some (format (Number (predictionDiff (GrantPrediction.predictions gp ! 3))) 2)"
proof -
  have "0 < length (GrantPrediction.predictions gp)" "1 < length (GrantPrediction.predictions gp)"
    "2 < length (GrantPrediction.predictions gp)" "3 < length (GrantPrediction.predictions gp)"
    using assms(3) by auto
  then show ?thesis
    using assms(1,2)
    unfolding roundDetails_def Let_def
    by (auto simp: formattedPrediction_at split: option.splits)
qed

text \<open>
  C8. The specification says that a round whose metadata grant list does not contain the
  grant is left out of the returned array. The code maps over every round it is given and
  never reads the grant list: grant 4 is not among the grants 2 and 3 of round A, and the
  call for grant 4 returns a summary of round A, with no contributions and no predictions.
\<close>

theorem getGrantsGrantRoundDetails_emits_round_of_nonmember:
  "metadata_AB (GrantRound.metaPtr round_A) =
     Some \<lparr>GrantRoundMetadataResolution.name = Some ''Round A'', grants = Some [2, 3]\<rparr> \<and>
   4 \<notin> set [2, 3 :: nat] \<and>
   getGrantsGrantRoundDetails formatNumber filterContributionsByGrantId
       filterContributionsByGrantRound 4 [round_A] metadata_AB clr_only_A contributions_A =
     Inr [\<lparr>GrantsRoundDetails.grantId = 4, address = ''0xRoundA'', metaPtr = ''ptrA'',
           name = ''Round A'', matchingToken = DAI, donationToken = DAI, contributions = [],
           balance = formatNumber (NumberString (Fin 0)) 2, matching = None,
           prediction1 = None, prediction10 = None, prediction100 = None\<rparr>]"
  by (simp add: aggregator_defs aggregator_examples roundToDouble_small_integers)

text \<open>
  C9 as the specification states it: a summary of a round with predictions at the points
  0, 1, 10, 100, 1000 and 10000 reports the delta at the 1000 point. The summary has no
  such field: for grant 2 in round A the deltas are 2, 12, 80, 300 and 900, and the summary
  holds the matching 40 and the deltas 2, 12 and 80 only.
\<close>

theorem getGrantsGrantRoundDetails_omits_1000_point:
  "map predictionPoint (GrantPrediction.predictions prediction_grant2) =
     [Fin 0, Fin 1, Fin 10, Fin 100, Fin 1000, Fin 10000] \<and>
   predictionDiff (GrantPrediction.predictions prediction_grant2 ! 4) = Fin 300 \<and>
   getGrantsGrantRoundDetails formatNumber filterContributionsByGrantId
       filterContributionsByGrantRound 2 [round_A] metadata_AB clr_only_A contributions_A =
     Inr [\<lparr>GrantsRoundDetails.grantId = 2, address = ''0xRoundA'', metaPtr = ''ptrA'',
           name = ''Round A'', matchingToken = DAI, donationToken = DAI,
           contributions = [contributions_A ! 0, contributions_A ! 2],
           balance = formatNumber (NumberString (Fin 12)) 2,
           matching = Some (formatNumber (Number (Fin 40)) 2),
           prediction1 = Some (formatNumber (Number (Fin 2)) 2),
           prediction10 = Some (formatNumber (Number (Fin 12)) 2),
           prediction100 = Some (formatNumber (Number (Fin 80)) 2)\<rparr>] \<and>
   Some (formatNumber (Number (Fin 300)) 2) \<notin>
     set [Some (formatNumber (Number (Fin 40)) 2), Some (formatNumber (Number (Fin 2)) 2),
          Some (formatNumber (Number (Fin 12)) 2), Some (formatNumber (Number (Fin 80)) 2)]"
  by (simp add: aggregator_defs aggregator_examples roundToDouble_small_integers)

text \<open>
  C9, amended. When the call returns and the predictor was invoked with the points
  0, 1, 10, 100, 1000 and 10000, the summary of a round with a prediction for the grant
  reports the predicted match at the 0 point in \<open>matching\<close> and the prediction deltas at
  the 1, 10 and 100 points in \<open>prediction1\<close>, \<open>prediction10\<close> and \<open>prediction100\<close>, each
  passed to \<^verbatim>\<open>formatNumber\<close> with 2 decimals. This holds for every \<^verbatim>\<open>formatNumber\<close> and
  for every pair of contribution filters.
\<close>

theorem getGrantsGrantRoundDetails_reports_points_0_1_10_100:
  assumes "getGrantsGrantRoundDetails format byGrant byRound g rs roundsMetadata
             grantRoundsCLRData cs = Inr out"
    and "i < length rs"
    and "getPredictionsForGrantInRound g (grantRoundsCLRData (GrantRound.address (rs ! i))) =
           Inr (Some gp)"
    and "GrantPrediction.predictions gp = [p0, p1, p10, p100, p1000, p10000]"
    and "map predictionPoint [p0, p1, p10, p100, p1000, p10000] =
           [Fin 0, Fin 1, Fin 10, Fin 100, Fin 1000, Fin 10000]"
  shows "length out = length rs \<and>
         GrantsRoundDetails.address (out ! i) = GrantRound.address (rs ! i) \<and>
         matching (out ! i) = Some (format (Number (predictedGrantMatch p0)) 2) \<and>
         prediction1 (out ! i) = Some (format (Number (predictionDiff p1)) 2) \<and>
         prediction10 (out ! i) = Some (format (Number (predictionDiff p10)) 2) \<and>
         prediction100 (out ! i) = Some (format (Number (predictionDiff p100)) 2)"
proof -
  from assms(1) have m: "arrayMap
      (roundDetails format byRound g roundsMetadata grantRoundsCLRData (byGrant g cs)) rs = Inr out"
    by (simp add: getGrantsGrantRoundDetails_def)
  from arrayMap_returns [OF m] assms(2) have
    l: "length out = length rs" and
    d: "roundDetails format byRound g roundsMetadata grantRoundsCLRData (byGrant g cs) (rs ! i) =
          Inr (out ! i)"
    by simp_all
  have "4 \<le> length (GrantPrediction.predictions gp)"
    using assms(4) by simp
  from roundDetails_fields [OF d assms(3) this] l show ?thesis
    by (simp add: assms(4))
qed

theorem getGrantsGrantRoundDetails_reports_points_0_1_10_100_witness:
  "\<exists>out. getGrantsGrantRoundDetails formatNumber filterContributionsByGrantId
       filterContributionsByGrantRound 2 [round_A] metadata_AB clr_only_A contributions_A = Inr out \<and>
     length out = 1 \<and>
     GrantsRoundDetails.address (out ! 0) = ''0xRoundA'' \<and>
     matching (out ! 0) = Some (Number (Fin 40), 2) \<and>
     prediction1 (out ! 0) = Some (Number (Fin 2), 2) \<and>
     prediction10 (out ! 0) = Some (Number (Fin 12), 2) \<and>
     prediction100 (out ! 0) = Some (Number (Fin 80), 2)"
proof -
  obtain out where r: "getGrantsGrantRoundDetails formatNumber filterContributionsByGrantId
       filterContributionsByGrantRound 2 [round_A] metadata_AB clr_only_A contributions_A = Inr out"
    by (simp add: aggregator_defs aggregator_examples roundToDouble_small_integers)
  have i: "0 < length [round_A]"
    by simp
  have p: "getPredictionsForGrantInRound 2 (clr_only_A (GrantRound.address ([round_A] ! 0))) =
             Inr (Some prediction_grant2)"
    by (simp add: getPredictionsForGrantInRound_def clr_only_A_def round_A_def)
  have ps: "GrantPrediction.predictions prediction_grant2 =
      [\<lparr>predictionPoint = Fin 0, predictedGrantMatch = Fin 40, predictionDiff = Fin 0\<rparr>,
       \<lparr>predictionPoint = Fin 1, predictedGrantMatch = Fin 42, predictionDiff = Fin 2\<rparr>,
       \<lparr>predictionPoint = Fin 10, predictedGrantMatch = Fin 52, predictionDiff = Fin 12\<rparr>,
       \<lparr>predictionPoint = Fin 100, predictedGrantMatch = Fin 120, predictionDiff = Fin 80\<rparr>,
       \<lparr>predictionPoint = Fin 1000, predictedGrantMatch = Fin 340, predictionDiff = Fin 300\<rparr>,
       \<lparr>predictionPoint = Fin 10000, predictedGrantMatch = Fin 940, predictionDiff = Fin 900\<rparr>]"
    by (simp add: prediction_grant2_def)
  from getGrantsGrantRoundDetails_reports_points_0_1_10_100 [OF r i p ps]
  have "length out = 1 \<and>
     GrantsRoundDetails.address (out ! 0) = ''0xRoundA'' \<and>
     matching (out ! 0) = Some (Number (Fin 40), 2) \<and>
     prediction1 (out ! 0) = Some (Number (Fin 2), 2) \<and>
     prediction10 (out ! 0) = Some (Number (Fin 12), 2) \<and>
     prediction100 (out ! 0) = Some (Number (Fin 80), 2)"
    by (simp add: formatNumber_def round_A_def)
  with r show ?thesis by blast
qed

text \<open>
  C10. A round whose address has no entry in \<open>grantRoundsCLRData\<close> makes the callback
  throw the TypeError of reading \<^verbatim>\<open>predictions\<close> of \<^verbatim>\<open>undefined\<close>, and a call whose round
  list contains such a round throws a TypeError: it returns no array, and so no summary
  with undefined matching and prediction fields.
\<close>

theorem getGrantsGrantRoundDetails_fails_without_CLR_entry:
  assumes "r \<in> set rs" and "grantRoundsCLRData (GrantRound.address r) = None"
  shows "getPredictionsForGrantInRound g (grantRoundsCLRData (GrantRound.address r)) =
           Inl (TypeError ''predictions'') \<and>
         roundDetails format byRound g roundsMetadata grantRoundsCLRData (byGrant g cs) r =
           Inl (TypeError ''predictions'') \<and>
         (\<exists>p. getGrantsGrantRoundDetails format byGrant byRound g rs roundsMetadata
                 grantRoundsCLRData cs = Inl (TypeError p))"
proof -
  have d: "roundDetails format byRound g roundsMetadata grantRoundsCLRData (byGrant g cs) r =
             Inl (TypeError ''predictions'')"
    using assms(2) by (rule roundDetails_without_CLR_entry)
  from arrayMap_throws [where f = "roundDetails format byRound g roundsMetadata grantRoundsCLRData
      (byGrant g cs)" and x = r and xs = rs and e = "TypeError ''predictions''"] assms(1) d
  obtain e y where
    e: "arrayMap (roundDetails format byRound g roundsMetadata grantRoundsCLRData (byGrant g cs)) rs =
          Inl e" and
    y: "roundDetails format byRound g roundsMetadata grantRoundsCLRData (byGrant g cs) y = Inl e"
    by blast
  from roundDetails_TypeError [OF y] obtain p where "e = TypeError p"
    by blast
  with e have "getGrantsGrantRoundDetails format byGrant byRound g rs roundsMetadata
                 grantRoundsCLRData cs = Inl (TypeError p)"
    by (simp add: getGrantsGrantRoundDetails_def)
  then show ?thesis
    using d assms(2) by (auto simp: getPredictionsForGrantInRound_def)
qed

theorem getGrantsGrantRoundDetails_fails_without_CLR_entry_witness:
  "clr_only_A (GrantRound.address round_B) = None \<and>
   (\<exists>p. getGrantsGrantRoundDetails formatNumber filterContributionsByGrantId
           filterContributionsByGrantRound 4 [round_A, round_B] metadata_AB clr_only_A
           contributions_A = Inl (TypeError p))"
proof -
  have m: "round_B \<in> set [round_A, round_B]"
    by simp
  have n: "clr_only_A (GrantRound.address round_B) = None"
    by (simp add: clr_only_A_def round_B_def)
  from getGrantsGrantRoundDetails_fails_without_CLR_entry [where r = round_B
      and rs = "[round_A, round_B]" and grantRoundsCLRData = clr_only_A and g = 4
      and format = formatNumber and byGrant = filterContributionsByGrantId
      and byRound = filterContributionsByGrantRound and roundsMetadata = metadata_AB
      and cs = contributions_A] m n
  show ?thesis
    by blast
qed

end
